theory Spec2Isabelle
  imports Main "HOL-Library.Monad_Syntax"
begin

section \<open>JavaScript values\<close>

text \<open>
  The values that travel through \<^verbatim>\<open>src/api.ts\<close>: strings, string arrays, the
  object literals handed to \<^verbatim>\<open>api.post\<close>, and whatever decoded body the backend
  answers with. An object is an association list in property-creation order, which is
  what an object literal builds.
\<close>

datatype js =
    JUndefined
  | JNull
  | JBool bool
  | JNum int
  | JStr string
  | JArr "js list"
  | JObj "(string \<times> js) list"

fun entries :: "js \<Rightarrow> (string \<times> js) list" where
  "entries (JObj kvs) = kvs"
| "entries _ = []"

definition keys :: "js \<Rightarrow> string list" where
  "keys v = map fst (entries v)"

definition property :: "js \<Rightarrow> string \<Rightarrow> js option" where
  "property v k = map_of (entries v) k"

text \<open>
  The default request transform of the HTTP client serialises a plain object with
  \<^verbatim>\<open>JSON.stringify\<close>. Its effect on the tree of values: a property whose value is
  \<^verbatim>\<open>undefined\<close> is left out, an \<^verbatim>\<open>undefined\<close> array element becomes
  \<^verbatim>\<open>null\<close>.
\<close>

fun stringify :: "js \<Rightarrow> js" where
  "stringify (JArr xs) =
     JArr (map (\<lambda>x. if x = JUndefined then JNull else stringify x) xs)"
| "stringify (JObj kvs) =
     JObj (map (\<lambda>kv. (fst kv, stringify (snd kv)))
            (filter (\<lambda>kv. snd kv \<noteq> JUndefined) kvs))"
| "stringify v = v"

section \<open>The HTTP client\<close>

datatype http_method = GET | POST | PUT | PATCH | DELETE

record axios_config =
  baseURL :: string
  headers :: "(string \<times> string) list"

record request =
  req_method :: http_method
  req_baseURL :: string
  req_url :: string
  req_headers :: "(string \<times> string) list"
  req_data :: js

definition wire_body :: "request \<Rightarrow> js" where
  "wire_body r = stringify (req_data r)"

record response =
  status :: nat
  data :: js

text \<open>
  What comes back from the network for one request: nothing (a transport failure, with
  its message), or a status code and a decoded body.
\<close>

datatype reply = NoReply string | HttpReply nat js

text \<open>The failure value with which the client rejects.\<close>

datatype AxiosError = NetworkError string | BadStatus response

text \<open>
  The environment of one call: the clock that \<^verbatim>\<open>new Date()\<close> reads (milliseconds
  since the epoch) and the backend's answer to each request.
\<close>

record env =
  now :: int
  backend :: "request \<Rightarrow> reply"

text \<open>
  The state a call can touch: the module-level client instance, the console, and the
  requests that have left the process.
\<close>

record world =
  api :: axios_config
  console :: "(string \<times> AxiosError) list"
  outbox :: "request list"

definition axios_create :: "axios_config \<Rightarrow> axios_config" where
  "axios_create cfg = cfg"

text \<open>
  The client resolves with the response when the status is in the 2xx range and rejects
  otherwise (its default status validation); a transport failure rejects as well.
\<close>

definition settle :: "reply \<Rightarrow> AxiosError + response" where
  "settle r =
     (case r of
        NoReply m \<Rightarrow> Inl (NetworkError m)
      | HttpReply st body \<Rightarrow>
          if 200 \<le> st \<and> st < 300 then Inr \<lparr>status = st, data = body\<rparr>
          else Inl (BadStatus \<lparr>status = st, data = body\<rparr>))"

definition post ::
  "env \<Rightarrow> axios_config \<Rightarrow> string \<Rightarrow> js \<Rightarrow> world \<Rightarrow> (AxiosError + response) \<times> world" where
  "post e inst path payload w =
     (let r = \<lparr>req_method = POST, req_baseURL = baseURL inst, req_url = path,
               req_headers = headers inst, req_data = payload\<rparr>
      in (settle (backend e r), w\<lparr>outbox := outbox w @ [r]\<rparr>))"

definition console_error :: "string \<Rightarrow> AxiosError \<Rightarrow> world \<Rightarrow> world" where
  "console_error msg err w = w\<lparr>console := console w @ [(msg, err)]\<rparr>"

section \<open>The clock and \<^verbatim>\<open>Date.prototype.toISOString\<close>\<close>

text \<open>
  \<^verbatim>\<open>new Date().toISOString()\<close> reads the clock and prints the time value in UTC.
  The functions below are the date arithmetic of the language standard on mathematical
  integers: a time value is a number of milliseconds since 1970-01-01T00:00:00Z, and
  \<open>div\<close> and \<open>mod\<close> on \<open>int\<close> are the standard's floor and modulo.
\<close>

definition msPerDay :: int where "msPerDay = 86400000"

definition Day :: "int \<Rightarrow> int" where
  "Day t = t div msPerDay"

definition DaysInYear :: "int \<Rightarrow> int" where
  "DaysInYear y =
     (if y mod 4 \<noteq> 0 then 365
      else if y mod 100 \<noteq> 0 then 366
      else if y mod 400 \<noteq> 0 then 365
      else 366)"

definition DayFromYear :: "int \<Rightarrow> int" where
  "DayFromYear y =
     365 * (y - 1970) + (y - 1969) div 4 - (y - 1901) div 100 + (y - 1601) div 400"

definition TimeFromYear :: "int \<Rightarrow> int" where
  "TimeFromYear y = msPerDay * DayFromYear y"

text \<open>
  The standard defines the year of a time value \<open>t\<close> as the largest \<open>y\<close> with
  \<open>TimeFromYear y \<le> t\<close>. The function below computes it: an estimate from the
  mean length of a year, corrected by at most one year either way. Lemma
  \<open>YearFromTime_largest\<close> shows that the result is the standard's year.
\<close>

definition YearFromTime :: "int \<Rightarrow> int" where
  "YearFromTime t =
     (let d = Day t; y = 1970 + (400 * d) div 146097
      in if DayFromYear (y + 1) \<le> d then y + 1
         else if DayFromYear y \<le> d then y
         else y - 1)"

definition msPerHour :: int where "msPerHour = 3600000"
definition msPerMinute :: int where "msPerMinute = 60000"
definition msPerSecond :: int where "msPerSecond = 1000"

definition InLeapYear :: "int \<Rightarrow> int" where
  "InLeapYear t = (if DaysInYear (YearFromTime t) = 366 then 1 else 0)"

definition DayWithinYear :: "int \<Rightarrow> int" where
  "DayWithinYear t = Day t - DayFromYear (YearFromTime t)"

definition MonthFromTime :: "int \<Rightarrow> int" where
  "MonthFromTime t =
     (let d = DayWithinYear t; l = InLeapYear t
      in if d < 31 then 0
         else if d < 59 + l then 1
         else if d < 90 + l then 2
         else if d < 120 + l then 3
         else if d < 151 + l then 4
         else if d < 181 + l then 5
         else if d < 212 + l then 6
         else if d < 243 + l then 7
         else if d < 273 + l then 8
         else if d < 304 + l then 9
         else if d < 334 + l then 10
         else 11)"

definition DateFromTime :: "int \<Rightarrow> int" where
  "DateFromTime t =
     (let d = DayWithinYear t; l = InLeapYear t; m = MonthFromTime t
      in if m = 0 then d + 1
         else if m = 1 then d - 30
         else if m = 2 then d - 58 - l
         else if m = 3 then d - 89 - l
         else if m = 4 then d - 119 - l
         else if m = 5 then d - 150 - l
         else if m = 6 then d - 180 - l
         else if m = 7 then d - 211 - l
         else if m = 8 then d - 242 - l
         else if m = 9 then d - 272 - l
         else if m = 10 then d - 303 - l
         else d - 333 - l)"

definition HourFromTime :: "int \<Rightarrow> int" where
  "HourFromTime t = (t div msPerHour) mod 24"

definition MinFromTime :: "int \<Rightarrow> int" where
  "MinFromTime t = (t div msPerMinute) mod 60"

definition SecFromTime :: "int \<Rightarrow> int" where
  "SecFromTime t = (t div msPerSecond) mod 60"

definition msFromTime :: "int \<Rightarrow> int" where
  "msFromTime t = t mod msPerSecond"

text \<open>
  Decimal printing with leading zeros: \<open>pad n k\<close> is the last \<open>n\<close> decimal digits
  of \<open>k\<close>, which is \<open>k\<close> padded to width \<open>n\<close> whenever \<open>k\<close> has at most
  \<open>n\<close> digits.
\<close>

definition digit_char :: "nat \<Rightarrow> char" where
  "digit_char d = char_of (48 + d)"

fun pad :: "nat \<Rightarrow> nat \<Rightarrow> string" where
  "pad 0 k = []"
| "pad (Suc n) k = pad n (k div 10) @ [digit_char (k mod 10)]"

text \<open>
  Years 0 to 9999 print with four digits, all others with a sign and six digits.
\<close>

definition year_string :: "int \<Rightarrow> string" where
  "year_string y =
     (if 0 \<le> y \<and> y \<le> 9999 then pad 4 (nat y)
      else (if y < 0 then ''-'' else ''+'') @ pad 6 (nat \<bar>y\<bar>))"

definition toISOString :: "int \<Rightarrow> string" where
  "toISOString t =
     year_string (YearFromTime t) @ ''-'' @
     pad 2 (nat (MonthFromTime t + 1)) @ ''-'' @
     pad 2 (nat (DateFromTime t)) @ ''T'' @
     pad 2 (nat (HourFromTime t)) @ '':'' @
     pad 2 (nat (MinFromTime t)) @ '':'' @
     pad 2 (nat (SecFromTime t)) @ ''.'' @
     pad 3 (nat (msFromTime t)) @ ''Z''"

text \<open>The range of time values that the language's clock and dates can hold.\<close>

definition time_value :: "int \<Rightarrow> bool" where
  "time_value t \<longleftrightarrow> - 8640000000000000 \<le> t \<and> t \<le> 8640000000000000"

subsection \<open>Reading a timestamp back\<close>

text \<open>
  An independent reader of ISO 8601 timestamps in the complete extended format
  \<^verbatim>\<open>YYYY-MM-DDTHH:mm:ss.sssZ\<close>, with the expanded year \<^verbatim>\<open>+YYYYYY\<close> or
  \<^verbatim>\<open>-YYYYYY\<close> as the alternative. A timestamp is valid when it reads completely
  and names a day that exists in the proleptic Gregorian calendar and a time of day
  within 23:59:59.
\<close>

definition is_digit :: "char \<Rightarrow> bool" where
  "is_digit c \<longleftrightarrow> 48 \<le> (of_char c :: nat) \<and> (of_char c :: nat) \<le> 57"

definition decimal :: "string \<Rightarrow> nat" where
  "decimal s = foldl (\<lambda>a c. 10 * a + (of_char c - 48)) 0 s"

definition read_number :: "nat \<Rightarrow> string \<Rightarrow> (nat \<times> string) option" where
  "read_number n s =
     (if n \<le> length s \<and> list_all is_digit (take n s)
      then Some (decimal (take n s), drop n s) else None)"

definition read_char :: "char \<Rightarrow> string \<Rightarrow> string option" where
  "read_char c s = (case s of [] \<Rightarrow> None | x # r \<Rightarrow> if x = c then Some r else None)"

definition read_year :: "string \<Rightarrow> (int \<times> string) option" where
  "read_year s =
     (case s of
        [] \<Rightarrow> None
      | c # r \<Rightarrow>
          if c = CHR ''+'' then
            (case read_number 6 r of None \<Rightarrow> None | Some (n, r') \<Rightarrow> Some (int n, r'))
          else if c = CHR ''-'' then
            (case read_number 6 r of
               None \<Rightarrow> None
             | Some (n, r') \<Rightarrow> if n = 0 then None else Some (- int n, r'))
          else
            (case read_number 4 s of None \<Rightarrow> None | Some (n, r') \<Rightarrow> Some (int n, r')))"

definition days_in_month :: "int \<Rightarrow> nat \<Rightarrow> nat" where
  "days_in_month y m =
     (if m = 2 then (if y mod 4 = 0 \<and> (y mod 100 \<noteq> 0 \<or> y mod 400 = 0) then 29 else 28)
      else if m = 4 \<or> m = 6 \<or> m = 9 \<or> m = 11 then 30
      else 31)"

record date_time =
  dt_year :: int
  dt_month :: nat
  dt_day :: nat
  dt_hour :: nat
  dt_minute :: nat
  dt_second :: nat
  dt_millis :: nat

definition parse_iso8601 :: "string \<Rightarrow> date_time option" where
  "parse_iso8601 s0 = do {
     (y, s1) \<leftarrow> read_year s0;
     s2 \<leftarrow> read_char CHR ''-'' s1;
     (mo, s3) \<leftarrow> read_number 2 s2;
     s4 \<leftarrow> read_char CHR ''-'' s3;
     (d, s5) \<leftarrow> read_number 2 s4;
     s6 \<leftarrow> read_char CHR ''T'' s5;
     (h, s7) \<leftarrow> read_number 2 s6;
     s8 \<leftarrow> read_char CHR '':'' s7;
     (mi, s9) \<leftarrow> read_number 2 s8;
     s10 \<leftarrow> read_char CHR '':'' s9;
     (se, s11) \<leftarrow> read_number 2 s10;
     s12 \<leftarrow> read_char CHR ''.'' s11;
     (ms, s13) \<leftarrow> read_number 3 s12;
     s14 \<leftarrow> read_char CHR ''Z'' s13;
     if s14 = [] then
       Some \<lparr>dt_year = y, dt_month = mo, dt_day = d, dt_hour = h, dt_minute = mi,
             dt_second = se, dt_millis = ms\<rparr>
     else None
   }"

definition valid_date_time :: "date_time \<Rightarrow> bool" where
  "valid_date_time dt \<longleftrightarrow>
     1 \<le> dt_month dt \<and> dt_month dt \<le> 12 \<and>
     1 \<le> dt_day dt \<and> dt_day dt \<le> days_in_month (dt_year dt) (dt_month dt) \<and>
     dt_hour dt \<le> 23 \<and> dt_minute dt \<le> 59 \<and> dt_second dt \<le> 59"

definition valid_iso8601 :: "string \<Rightarrow> bool" where
  "valid_iso8601 s = (case parse_iso8601 s of None \<Rightarrow> False | Some dt \<Rightarrow> valid_date_time dt)"

text \<open>
  The instant that a timestamp names, in milliseconds since the epoch: the days up to
  the first of January of the year, the days of the months before, the day of the
  month, and the time of day.
\<close>

definition days_before_month :: "int \<Rightarrow> nat \<Rightarrow> nat" where
  "days_before_month y m = sum_list (map (days_in_month y) [1..<m])"

definition instant_of :: "date_time \<Rightarrow> int" where
  "instant_of dt =
     (DayFromYear (dt_year dt) + int (days_before_month (dt_year dt) (dt_month dt)) +
        int (dt_day dt) - 1) * msPerDay +
     int (dt_hour dt) * msPerHour + int (dt_minute dt) * msPerMinute +
     int (dt_second dt) * msPerSecond + int (dt_millis dt)"

text \<open>The calendar fields of a time value, as numbers.\<close>

definition date_time_of :: "int \<Rightarrow> date_time" where
  "date_time_of t =
     \<lparr>dt_year = YearFromTime t, dt_month = nat (MonthFromTime t + 1),
      dt_day = nat (DateFromTime t), dt_hour = nat (HourFromTime t),
      dt_minute = nat (MinFromTime t), dt_second = nat (SecFromTime t),
      dt_millis = nat (msFromTime t)\<rparr>"

section \<open>The module \<^verbatim>\<open>src/api.ts\<close>\<close>

definition API_BASE_URL :: string where
  "API_BASE_URL = ''http://localhost:3002/api''"

text \<open>The state right after the module has been loaded.\<close>

definition module_init :: world where
  "module_init =
     \<lparr>api = axios_create
              \<lparr>baseURL = API_BASE_URL,
               headers = [(''Content-Type'', ''application/json'')]\<rparr>,
      console = [],
      outbox = []\<rparr>"

text \<open>
  The two diagnostic strings are Chinese text in the source; they are kept as the UTF-8
  bytes of the source file, each ending in an ASCII colon.
\<close>

definition interpret_failed :: string where
  "interpret_failed = map char_of
     [0xE8, 0x8E, 0xB7, 0xE5, 0x8F, 0x96, 0xE5, 0x8D, 0xA0, 0xE5, 0x8D, 0x9C, 0xE8,
      0xA7, 0xA3, 0xE8, 0xAF, 0xBB, 0xE5, 0xA4, 0xB1, 0xE8, 0xB4, 0xA5, 0x3A :: nat]"

definition add_todo_failed :: string where
  "add_todo_failed = map char_of
     [0xE6, 0xB7, 0xBB, 0xE5, 0x8A, 0xA0, 0xE5, 0xBE, 0x85, 0xE5, 0x8A, 0x9E, 0xE4,
      0xBA, 0x8B, 0xE9, 0xA1, 0xB9, 0xE5, 0xA4, 0xB1, 0xE8, 0xB4, 0xA5, 0x3A :: nat]"

text \<open>
  An \<^verbatim>\<open>async\<close> function settles with a value or with the thrown failure: the
  result is a sum, \<open>Inl\<close> the failure. The \<^verbatim>\<open>try\<close> block is the case
  distinction on what \<^verbatim>\<open>api.post\<close> settled with.
\<close>

definition getDivinationInterpretation ::
  "env \<Rightarrow> string \<Rightarrow> string \<Rightarrow> string list \<Rightarrow> world \<Rightarrow> (AxiosError + js) \<times> world" where
  "getDivinationInterpretation e matter hexagram lines w =
     (case post e (api w) ''/divination/interpret''
             (JObj [(''matter'', JStr matter),
                    (''hexagram'', JStr hexagram),
                    (''lines'', JArr (map JStr lines))]) w of
        (Inr response, w') \<Rightarrow> (Inr (data response), w')
      | (Inl error, w') \<Rightarrow> (Inl error, console_error interpret_failed error w'))"

text \<open>
  The third parameter of \<^verbatim>\<open>addTodoItem\<close> is optional. A call site leaves it out,
  passes \<^verbatim>\<open>undefined\<close>, or passes a string; inside the function a parameter
  without an argument holds \<^verbatim>\<open>undefined\<close>.
\<close>

datatype optional_arg = Omitted | PassedUndefined | Passed string

fun param_value :: "optional_arg \<Rightarrow> js" where
  "param_value Omitted = JUndefined"
| "param_value PassedUndefined = JUndefined"
| "param_value (Passed s) = JStr s"

definition addTodoItem ::
  "env \<Rightarrow> string \<Rightarrow> string \<Rightarrow> optional_arg \<Rightarrow> world \<Rightarrow> (AxiosError + js) \<times> world" where
  "addTodoItem e title description hexagram w =
     (case post e (api w) ''/todos''
             (JObj [(''title'', JStr title),
                    (''description'', JStr description),
                    (''hexagram'', param_value hexagram),
                    (''completed'', JBool False),
                    (''createdAt'', JStr (toISOString (now e)))]) w of
        (Inr response, w') \<Rightarrow> (Inr (data response), w')
      | (Inl error, w') \<Rightarrow> (Inl error, console_error add_todo_failed error w'))"

subsection \<open>Calls and runs\<close>

text \<open>
  A call of either exported function, and a run: calls made one after the other, each
  in its own environment (the clock has moved on, the backend may answer differently).
\<close>

datatype call =
    GetDivinationInterpretation string string "string list"
  | AddTodoItem string string optional_arg

fun invoke :: "env \<Rightarrow> call \<Rightarrow> world \<Rightarrow> (AxiosError + js) \<times> world" where
  "invoke e (GetDivinationInterpretation matter hexagram lines) w =
     getDivinationInterpretation e matter hexagram lines w"
| "invoke e (AddTodoItem title description hexagram) w =
     addTodoItem e title description hexagram w"

fun run :: "(env \<times> call) list \<Rightarrow> world \<Rightarrow> world" where
  "run [] w = w"
| "run (ec # rest) w = run rest (snd (invoke (fst ec) (snd ec) w))"

text \<open>The diagnostic string that goes with each operation.\<close>

fun diagnostic :: "call \<Rightarrow> string" where
  "diagnostic (GetDivinationInterpretation _ _ _) = interpret_failed"
| "diagnostic (AddTodoItem _ _ _) = add_todo_failed"

text \<open>The requests that left the process between two states.\<close>

definition issued :: "world \<Rightarrow> world \<Rightarrow> request list" where
  "issued w w' = drop (length (outbox w)) (outbox w')"

section \<open>Date arithmetic\<close>

subsection \<open>Integer division\<close>

lemma div_succ_dvd:
  fixes a n :: int
  assumes "0 < n"
  shows "(a + 1) div n = a div n + (if n dvd (a + 1) then 1 else 0)"
proof (cases "n dvd (a + 1)")
  case True
  then obtain q where q: "a + 1 = n * q" by (auto simp: dvd_def)
  then have a: "a = n * (q - 1) + (n - 1)" by (simp add: algebra_simps)
  have "a div n = q - 1"
    using assms by (subst a) (simp add: div_pos_pos_trivial)
  moreover have "(a + 1) div n = q" using q assms by simp
  ultimately show ?thesis using True by simp
next
  case False
  have "a = n * (a div n) + a mod n" by simp
  have r: "0 \<le> a mod n" "a mod n < n" using assms by simp_all
  have "a mod n + 1 \<noteq> n"
  proof
    assume "a mod n + 1 = n"
    then have "a + 1 = n * (a div n) + n"
      by (metis add.assoc mult_div_mod_eq)
    then have "a + 1 = n * (a div n + 1)" by (simp add: algebra_simps)
    then show False using False by (metis dvd_triv_left)
  qed
  then have r2: "a mod n + 1 < n" using r by simp
  have z: "(a mod n + 1) div n = 0"
    using r r2 by (simp add: div_pos_pos_trivial)
  have "(n * (a div n) + (a mod n + 1)) div n = a div n + (a mod n + 1) div n"
    using assms by (simp only: div_mult_self4) 
  moreover have "n * (a div n) + (a mod n + 1) = a + 1" by simp
  ultimately have "(a + 1) div n = a div n" using z by (simp only: add_0_right)
  then show ?thesis using False by simp
qed

lemma div_step:
  fixes y c n :: int
  assumes "0 < n" and "n dvd (c - 1)"
  shows "(y + 1 - c) div n = (y - c) div n + (if y mod n = 0 then 1 else 0)"
proof -
  have "y - c + 1 = y - (c - 1)" by simp
  then have "n dvd (y - c + 1) \<longleftrightarrow> n dvd y"
    using assms(2) by (simp only: dvd_diff_left_iff)
  then have "n dvd (y - c + 1) \<longleftrightarrow> y mod n = 0"
    by (simp add: dvd_eq_mod_eq_0)
  then have "(y - c + 1) div n = (y - c) div n + (if y mod n = 0 then 1 else 0)"
    using div_succ_dvd [OF assms(1), of "y - c"] by simp
  moreover have "y + 1 - c = y - c + 1" by simp
  ultimately show ?thesis by (simp only:)
qed

lemma div_lower:
  fixes a n :: int
  assumes "0 < n"
  shows "n * (a div n) \<le> a"
proof -
  have "0 \<le> a mod n" using assms by simp
  moreover have "n * (a div n) + a mod n = a" by simp
  ultimately show ?thesis by linarith
qed

lemma div_upper:
  fixes a n :: int
  assumes "0 < n"
  shows "a - (n - 1) \<le> n * (a div n)"
proof -
  have "a mod n < n" using assms by simp
  moreover have "n * (a div n) + a mod n = a" by simp
  ultimately show ?thesis by linarith
qed

subsection \<open>Years\<close>

lemma DayFromYear_Suc: "DayFromYear (y + 1) = DayFromYear y + DaysInYear y"
proof -
  have "(y + 1 - 1969) div 4 = (y - 1969) div 4 + (if y mod 4 = 0 then 1 else 0)"
    by (rule div_step) simp_all
  then have a: "(y - 1968) div 4 = (y - 1969) div 4 + (if y mod 4 = 0 then 1 else 0)"
    by simp
  have "(y + 1 - 1901) div 100 = (y - 1901) div 100 + (if y mod 100 = 0 then 1 else 0)"
    by (rule div_step) simp_all
  then have b: "(y - 1900) div 100 = (y - 1901) div 100 + (if y mod 100 = 0 then 1 else 0)"
    by simp
  have "(y + 1 - 1601) div 400 = (y - 1601) div 400 + (if y mod 400 = 0 then 1 else 0)"
    by (rule div_step) simp_all
  then have c: "(y - 1600) div 400 = (y - 1601) div 400 + (if y mod 400 = 0 then 1 else 0)"
    by simp
  have m1: "y mod 4 = 0" if "y mod 100 = 0"
    using that mod_mod_cancel [of 4 100 y] by simp
  have m2: "y mod 100 = 0" if "y mod 400 = 0"
    using that mod_mod_cancel [of 100 400 y] by simp
  show ?thesis
    using m1 m2 by (auto simp add: DayFromYear_def DaysInYear_def a b c)
qed

lemma year_lower: "DayFromYear (1970 + (400 * d) div 146097 - 1) \<le> d"
proof -
  define k where "k = (400 * d) div 146097"
  define a where "a = k div 4"
  define b where "b = (k + 68) div 100"
  define c where "c = (k + 368) div 400"
  have k: "146097 * k \<le> 400 * d"
    unfolding k_def by (rule div_lower) simp
  have q4: "4 * a \<le> k"
    unfolding a_def by (rule div_lower) simp
  have q100: "k + 68 - 99 \<le> 100 * b"
    unfolding b_def using div_upper [of 100 "k + 68"] by simp
  have q400: "400 * c \<le> k + 368"
    unfolding c_def by (rule div_lower) simp
  have "DayFromYear (1970 + k - 1) = 365 * k - 365 + a - b + c"
    by (simp add: DayFromYear_def add.commute a_def b_def c_def)
  moreover have "365 * k - 365 + a - b + c \<le> d"
    using k q4 q100 q400 by linarith
  ultimately show ?thesis
    unfolding k_def [symmetric] by simp
qed

lemma year_upper: "d < DayFromYear (1970 + (400 * d) div 146097 + 2)"
proof -
  define k where "k = (400 * d) div 146097"
  define a where "a = (k + 3) div 4"
  define b where "b = (k + 71) div 100"
  define c where "c = (k + 371) div 400"
  have k: "400 * d < 146097 * k + 146097"
    using div_upper [of 146097 "400 * d"] unfolding k_def by simp
  have q4: "k + 3 - 3 \<le> 4 * a"
    unfolding a_def using div_upper [of 4 "k + 3"] by simp
  have q100: "100 * b \<le> k + 71"
    unfolding b_def by (rule div_lower) simp
  have q400: "k + 371 - 399 \<le> 400 * c"
    unfolding c_def using div_upper [of 400 "k + 371"] by simp
  have "DayFromYear (1970 + k + 2) = 365 * k + 730 + a - b + c"
    by (simp add: DayFromYear_def add.commute a_def b_def c_def)
  moreover have "d < 365 * k + 730 + a - b + c"
    using k q4 q100 q400 by linarith
  ultimately show ?thesis
    unfolding k_def [symmetric] by simp
qed

lemma YearFromTime_bracket:
  "DayFromYear (YearFromTime t) \<le> Day t \<and> Day t < DayFromYear (YearFromTime t + 1)"
proof -
  define d where "d = Day t"
  define y where "y = 1970 + (400 * d) div 146097"
  have lo: "DayFromYear (y - 1) \<le> d" unfolding y_def by (rule year_lower)
  have hi: "d < DayFromYear (y + 2)" unfolding y_def by (rule year_upper)
  have Y: "YearFromTime t = (if DayFromYear (y + 1) \<le> d then y + 1
         else if DayFromYear y \<le> d then y else y - 1)"
    by (simp add: YearFromTime_def Let_def d_def y_def)
  show ?thesis
    unfolding Y d_def [symmetric] using lo hi by (auto simp: add.commute)
qed

lemma DaysInYear_cases: "DaysInYear y = 365 \<or> DaysInYear y = 366"
  by (simp add: DaysInYear_def)

lemma DaysInYear_pos: "0 < DaysInYear y"
  using DaysInYear_cases [of y] by auto

lemma DayFromYear_add: "DayFromYear y \<le> DayFromYear (y + int n)"
proof (induction n)
  case 0
  show ?case by simp
next
  case (Suc n)
  have "DayFromYear (y + int (Suc n)) = DayFromYear (y + int n + 1)"
    by (simp add: algebra_simps)
  also have "\<dots> = DayFromYear (y + int n) + DaysInYear (y + int n)"
    by (rule DayFromYear_Suc)
  finally show ?case
    using Suc.IH DaysInYear_pos [of "y + int n"] by linarith
qed

lemma DayFromYear_mono:
  assumes "y \<le> z"
  shows "DayFromYear y \<le> DayFromYear z"
proof -
  have "z = y + int (nat (z - y))" using assms by simp
  then show ?thesis using DayFromYear_add [of y "nat (z - y)"] by simp
qed

lemma YearFromTime_largest_day: "DayFromYear y \<le> Day t \<longleftrightarrow> y \<le> YearFromTime t"
proof
  assume le: "DayFromYear y \<le> Day t"
  show "y \<le> YearFromTime t"
  proof (rule ccontr)
    assume "\<not> y \<le> YearFromTime t"
    then have "YearFromTime t + 1 \<le> y" by simp
    then have "DayFromYear (YearFromTime t + 1) \<le> DayFromYear y"
      by (rule DayFromYear_mono)
    then show False using le YearFromTime_bracket [of t] by linarith
  qed
next
  assume "y \<le> YearFromTime t"
  then have "DayFromYear y \<le> DayFromYear (YearFromTime t)"
    by (rule DayFromYear_mono)
  then show "DayFromYear y \<le> Day t"
    using YearFromTime_bracket [of t] by linarith
qed

lemma TimeFromYear_le_iff: "TimeFromYear y \<le> t \<longleftrightarrow> DayFromYear y \<le> Day t"
proof -
  define a where "a = DayFromYear y"
  define q where "q = t div 86400000"
  have lo: "86400000 * q \<le> t" unfolding q_def by (rule div_lower) simp
  have hi: "t - (86400000 - 1) \<le> 86400000 * q" unfolding q_def by (rule div_upper) simp
  have "86400000 * a \<le> t \<longleftrightarrow> a \<le> q"
    using lo hi by linarith
  then show ?thesis
    by (simp add: TimeFromYear_def Day_def msPerDay_def a_def q_def)
qed

lemma YearFromTime_largest: "TimeFromYear y \<le> t \<longleftrightarrow> y \<le> YearFromTime t"
  by (simp only: TimeFromYear_le_iff YearFromTime_largest_day)

lemma DayFromYear_0: "DayFromYear 0 = - 719528"
  by (simp add: DayFromYear_def)

lemma DayFromYear_10000: "DayFromYear 10000 = 2932897"
  by (simp add: DayFromYear_def)

lemma four_digit_year:
  assumes "- 62167219200000 \<le> t" and "t \<le> 253402300799999"
  shows "0 \<le> YearFromTime t \<and> YearFromTime t \<le> 9999"
proof -
  have "TimeFromYear 0 \<le> t"
    using assms(1) by (simp add: TimeFromYear_def DayFromYear_0 msPerDay_def)
  then have lo: "0 \<le> YearFromTime t"
    using YearFromTime_largest [of 0 t] by simp
  have "\<not> TimeFromYear 10000 \<le> t"
    using assms(2) by (simp add: TimeFromYear_def DayFromYear_10000 msPerDay_def)
  then have "\<not> 10000 \<le> YearFromTime t"
    using YearFromTime_largest [of 10000 t] by simp
  then show ?thesis using lo by simp
qed

lemma DayFromYear_bounds:
  "146097 * y - 287811596 \<le> 400 * DayFromYear y \<and>
   400 * DayFromYear y \<le> 146097 * y - 287810501"
proof -
  define a where "a = (y - 1969) div 4"
  define b where "b = (y - 1901) div 100"
  define c where "c = (y - 1601) div 400"
  have a: "4 * a \<le> y - 1969" "y - 1969 - 3 \<le> 4 * a"
    unfolding a_def using div_lower [of 4 "y - 1969"] div_upper [of 4 "y - 1969"] by simp_all
  have b: "100 * b \<le> y - 1901" "y - 1901 - 99 \<le> 100 * b"
    unfolding b_def using div_lower [of 100 "y - 1901"] div_upper [of 100 "y - 1901"]
    by simp_all
  have c: "400 * c \<le> y - 1601" "y - 1601 - 399 \<le> 400 * c"
    unfolding c_def using div_lower [of 400 "y - 1601"] div_upper [of 400 "y - 1601"]
    by simp_all
  have "DayFromYear y = 365 * y - 719050 + a - b + c"
    by (simp add: DayFromYear_def a_def b_def c_def)
  then show ?thesis using a b c by linarith
qed

lemma Day_range:
  assumes "time_value t"
  shows "- 100000000 \<le> Day t \<and> Day t \<le> 100000000"
proof -
  have lo: "- 8640000000000000 \<le> t" and hi: "t \<le> 8640000000000000"
    using assms by (simp_all add: time_value_def)
  have "86400000 * (t div 86400000) \<le> t" by (rule div_lower) simp
  moreover have "t - (86400000 - 1) \<le> 86400000 * (t div 86400000)"
    by (rule div_upper) simp
  ultimately show ?thesis
    unfolding Day_def msPerDay_def using lo hi by linarith
qed

lemma YearFromTime_range:
  assumes "time_value t"
  shows "- 999999 \<le> YearFromTime t \<and> YearFromTime t \<le> 999999"
proof -
  define y where "y = YearFromTime t"
  have "DayFromYear y \<le> Day t" and "Day t < DayFromYear (y + 1)"
    using YearFromTime_bracket [of t] by (simp_all add: y_def)
  moreover have "146097 * y - 287811596 \<le> 400 * DayFromYear y"
    using DayFromYear_bounds [of y] by simp
  moreover have "400 * DayFromYear (y + 1) \<le> 146097 * y + 146097 - 287810501"
    using DayFromYear_bounds [of "y + 1"] by simp
  ultimately show ?thesis
    unfolding y_def [symmetric] using Day_range [OF assms] by linarith
qed

subsection \<open>Months, days and the time of day\<close>

lemma DaysInYear_InLeapYear: "DaysInYear (YearFromTime t) = 365 + InLeapYear t"
  using DaysInYear_cases [of "YearFromTime t"] unfolding InLeapYear_def by auto

lemma DayWithinYear_range:
  "0 \<le> DayWithinYear t \<and> DayWithinYear t < 365 + InLeapYear t"
proof -
  define y where "y = YearFromTime t"
  have "DayFromYear y \<le> Day t" and "Day t < DayFromYear (y + 1)"
    using YearFromTime_bracket [of t] by (simp_all add: y_def)
  moreover have "DayFromYear (y + 1) = DayFromYear y + (365 + InLeapYear t)"
    by (simp only: DayFromYear_Suc y_def DaysInYear_InLeapYear)
  ultimately show ?thesis
    unfolding DayWithinYear_def y_def [symmetric] by linarith
qed

lemma InLeapYear_cases: "InLeapYear t = 0 \<or> InLeapYear t = 1"
  by (simp add: InLeapYear_def)

lemma MonthFromTime_range: "0 \<le> MonthFromTime t \<and> MonthFromTime t \<le> 11"
  by (simp add: MonthFromTime_def Let_def)

lemma leap_days_in_month:
  "days_in_month (YearFromTime t) 2 = nat (28 + InLeapYear t)"
proof -
  define y where "y = YearFromTime t"
  define p4 where "p4 \<longleftrightarrow> y mod 4 = 0"
  define p100 where "p100 \<longleftrightarrow> y mod 100 = 0"
  define p400 where "p400 \<longleftrightarrow> y mod 400 = 0"
  have m1: "p4" if "p100"
    using that mod_mod_cancel [of 4 100 y] unfolding p4_def p100_def by simp
  have m2: "p100" if "p400"
    using that mod_mod_cancel [of 100 400 y] unfolding p100_def p400_def by simp
  have a: "days_in_month y 2 = (if p4 \<and> (\<not> p100 \<or> p400) then 29 else 28)"
    by (simp only: days_in_month_def p4_def p100_def p400_def if_True simp_thms)
  have b: "DaysInYear y = (if \<not> p4 then 365 else if \<not> p100 then 366 else if \<not> p400 then 365 else 366)"
    by (simp only: DaysInYear_def p4_def p100_def p400_def)
  show ?thesis
    unfolding y_def [symmetric] InLeapYear_def a b
    using m1 m2 by auto
qed

lemma DateFromTime_range:
  "1 \<le> DateFromTime t \<and>
   nat (DateFromTime t) \<le> days_in_month (YearFromTime t) (nat (MonthFromTime t + 1))"
proof -
  define d where "d = DayWithinYear t"
  define l where "l = InLeapYear t"
  have r: "0 \<le> d" "d < 365 + l"
    using DayWithinYear_range [of t] by (simp_all add: d_def l_def)
  have l: "l = 0 \<or> l = 1"
    using InLeapYear_cases [of t] by (simp add: l_def)
  have l01: "0 \<le> l" "l \<le> 1" using l by auto
  have feb: "days_in_month (YearFromTime t) 2 = nat (28 + l)"
    by (simp add: leap_days_in_month l_def)
  have other: "m \<noteq> 2 \<Longrightarrow> days_in_month (YearFromTime t) m =
      (if m = 4 \<or> m = 6 \<or> m = 9 \<or> m = 11 then 30 else 31)" for m
    by (simp add: days_in_month_def)
  consider
      (m0) "d < 31"
    | (m1) "31 \<le> d" "d < 59 + l"
    | (m2) "59 + l \<le> d" "d < 90 + l"
    | (m3) "90 + l \<le> d" "d < 120 + l"
    | (m4) "120 + l \<le> d" "d < 151 + l"
    | (m5) "151 + l \<le> d" "d < 181 + l"
    | (m6) "181 + l \<le> d" "d < 212 + l"
    | (m7) "212 + l \<le> d" "d < 243 + l"
    | (m8) "243 + l \<le> d" "d < 273 + l"
    | (m9) "273 + l \<le> d" "d < 304 + l"
    | (m10) "304 + l \<le> d" "d < 334 + l"
    | (m11) "334 + l \<le> d"
    by linarith
  then show ?thesis
  proof cases
    case m0
    have M: "MonthFromTime t = 0"
      using m0 l01 unfolding d_def l_def by (simp add: MonthFromTime_def Let_def)
    have D: "DateFromTime t = d + 1"
      unfolding d_def l_def by (simp add: DateFromTime_def Let_def M)
    show ?thesis
      unfolding M D using m0 r l by (auto simp: feb other)
  next
    case m1
    have M: "MonthFromTime t = 1"
      using m1 l01 unfolding d_def l_def by (simp add: MonthFromTime_def Let_def)
    have D: "DateFromTime t = d - 30"
      unfolding d_def l_def by (simp add: DateFromTime_def Let_def M)
    show ?thesis
      unfolding M D using m1 r l by (auto simp: feb other)
  next
    case m2
    have M: "MonthFromTime t = 2"
      using m2 l01 unfolding d_def l_def by (simp add: MonthFromTime_def Let_def)
    have D: "DateFromTime t = d - 58 - l"
      unfolding d_def l_def by (simp add: DateFromTime_def Let_def M)
    show ?thesis
      unfolding M D using m2 r l by (auto simp: feb other)
  next
    case m3
    have M: "MonthFromTime t = 3"
      using m3 l01 unfolding d_def l_def by (simp add: MonthFromTime_def Let_def)
    have D: "DateFromTime t = d - 89 - l"
      unfolding d_def l_def by (simp add: DateFromTime_def Let_def M)
    show ?thesis
      unfolding M D using m3 r l by (auto simp: feb other)
  next
    case m4
    have M: "MonthFromTime t = 4"
      using m4 l01 unfolding d_def l_def by (simp add: MonthFromTime_def Let_def)
    have D: "DateFromTime t = d - 119 - l"
      unfolding d_def l_def by (simp add: DateFromTime_def Let_def M)
    show ?thesis
      unfolding M D using m4 r l by (auto simp: feb other)
  next
    case m5
    have M: "MonthFromTime t = 5"
      using m5 l01 unfolding d_def l_def by (simp add: MonthFromTime_def Let_def)
    have D: "DateFromTime t = d - 150 - l"
      unfolding d_def l_def by (simp add: DateFromTime_def Let_def M)
    show ?thesis
      unfolding M D using m5 r l by (auto simp: feb other)
  next
    case m6
    have M: "MonthFromTime t = 6"
      using m6 l01 unfolding d_def l_def by (simp add: MonthFromTime_def Let_def)
    have D: "DateFromTime t = d - 180 - l"
      unfolding d_def l_def by (simp add: DateFromTime_def Let_def M)
    show ?thesis
      unfolding M D using m6 r l by (auto simp: feb other)
  next
    case m7
    have M: "MonthFromTime t = 7"
      using m7 l01 unfolding d_def l_def by (simp add: MonthFromTime_def Let_def)
    have D: "DateFromTime t = d - 211 - l"
      unfolding d_def l_def by (simp add: DateFromTime_def Let_def M)
    show ?thesis
      unfolding M D using m7 r l by (auto simp: feb other)
  next
    case m8
    have M: "MonthFromTime t = 8"
      using m8 l01 unfolding d_def l_def by (simp add: MonthFromTime_def Let_def)
    have D: "DateFromTime t = d - 242 - l"
      unfolding d_def l_def by (simp add: DateFromTime_def Let_def M)
    show ?thesis
      unfolding M D using m8 r l by (auto simp: feb other)
  next
    case m9
    have M: "MonthFromTime t = 9"
      using m9 l01 unfolding d_def l_def by (simp add: MonthFromTime_def Let_def)
    have D: "DateFromTime t = d - 272 - l"
      unfolding d_def l_def by (simp add: DateFromTime_def Let_def M)
    show ?thesis
      unfolding M D using m9 r l by (auto simp: feb other)
  next
    case m10
    have M: "MonthFromTime t = 10"
      using m10 l01 unfolding d_def l_def by (simp add: MonthFromTime_def Let_def)
    have D: "DateFromTime t = d - 303 - l"
      unfolding d_def l_def by (simp add: DateFromTime_def Let_def M)
    show ?thesis
      unfolding M D using m10 r l by (auto simp: feb other)
  next
    case m11
    have M: "MonthFromTime t = 11"
      using m11 l01 unfolding d_def l_def by (simp add: MonthFromTime_def Let_def)
    have D: "DateFromTime t = d - 333 - l"
      unfolding d_def l_def by (simp add: DateFromTime_def Let_def M)
    show ?thesis
      unfolding M D using m11 r l by (auto simp: feb other)
  qed
qed

lemma days_in_month_le: "days_in_month y m \<le> 31"
  by (simp add: days_in_month_def)

lemma mod_range:
  fixes a n :: int
  assumes "0 < n"
  shows "0 \<le> a mod n \<and> a mod n \<le> n - 1"
proof -
  have "0 \<le> a mod n" and "a mod n < n" using assms by simp_all
  then show ?thesis by linarith
qed

lemma time_of_day_ranges:
  "0 \<le> HourFromTime t \<and> HourFromTime t \<le> 23 \<and>
   0 \<le> MinFromTime t \<and> MinFromTime t \<le> 59 \<and>
   0 \<le> SecFromTime t \<and> SecFromTime t \<le> 59 \<and>
   0 \<le> msFromTime t \<and> msFromTime t \<le> 999"
  unfolding HourFromTime_def MinFromTime_def SecFromTime_def msFromTime_def msPerSecond_def
  using mod_range [of 24 "t div msPerHour"] mod_range [of 60 "t div msPerMinute"]
    mod_range [of 60 "t div 1000"] mod_range [of 1000 t]
  by simp

section \<open>Printing and reading timestamps\<close>

lemma length_pad: "length (pad n k) = n"
  by (induction n arbitrary: k) simp_all

lemma is_digit_digit_char: "d < 10 \<Longrightarrow> is_digit (digit_char d)"
  by (simp add: is_digit_def digit_char_def)

lemma value_digit_char: "d < 10 \<Longrightarrow> of_char (digit_char d) - 48 = d"
  by (simp add: digit_char_def)

lemma digits_pad: "list_all is_digit (pad n k)"
  by (induction n arbitrary: k) (simp_all add: is_digit_digit_char)

lemma decimal_snoc: "decimal (xs @ [c]) = 10 * decimal xs + (of_char c - 48)"
  by (simp add: decimal_def)

lemma decimal_pad: "decimal (pad n k) = k mod 10 ^ n"
proof (induction n arbitrary: k)
  case 0
  show ?case by (simp add: decimal_def)
next
  case (Suc n)
  have "decimal (pad (Suc n) k) = 10 * (k div 10 mod 10 ^ n) + k mod 10"
    by (simp add: decimal_snoc Suc.IH value_digit_char)
  also have "\<dots> = k mod (10 * 10 ^ n)"
    by (simp add: mod_mult2_eq)
  finally show ?case by simp
qed

lemma read_number_pad:
  assumes "k < 10 ^ n"
  shows "read_number n (pad n k @ r) = Some (k, r)"
  using assms by (simp add: read_number_def length_pad digits_pad decimal_pad)

lemma read_char_Cons: "read_char c (c # r) = Some r"
  by (simp add: read_char_def)

lemma pad_Cons:
  assumes "0 < n"
  obtains c cs where "pad n k = c # cs" and "is_digit c"
proof -
  have "pad n k \<noteq> []" using assms length_pad [of n k] by auto
  then obtain c cs where e: "pad n k = c # cs" by (cases "pad n k") auto
  moreover have "is_digit c" using digits_pad [of n k] e by simp
  ultimately show thesis using that by blast
qed

lemma read_year_year_string:
  assumes "- 999999 \<le> y" and "y \<le> 999999"
  shows "read_year (year_string y @ r) = Some (y, r)"
proof -
  consider "0 \<le> y \<and> y \<le> 9999" | "y < 0" | "9999 < y" by linarith
  then show ?thesis
  proof cases
    case 1
    obtain c cs where e: "pad 4 (nat y) = c # cs" and d: "is_digit c"
      by (rule pad_Cons [of 4 "nat y"]) simp_all
    have ne: "c \<noteq> CHR ''+''" "c \<noteq> CHR ''-''"
      using d by (auto simp: is_digit_def)
    have "nat y < 10 ^ 4" using 1 by (simp add: nat_less_iff)
    then have "read_number 4 (pad 4 (nat y) @ r) = Some (nat y, r)"
      by (rule read_number_pad)
    then have "read_number 4 (c # cs @ r) = Some (nat y, r)"
      by (simp add: e)
    then show ?thesis
      using 1 ne by (simp add: year_string_def read_year_def e)
  next
    case 2
    have "nat \<bar>y\<bar> < 10 ^ 6" using assms 2 by simp
    then have "read_number 6 (pad 6 (nat \<bar>y\<bar>) @ r) = Some (nat \<bar>y\<bar>, r)"
      by (rule read_number_pad)
    then show ?thesis
      using 2 by (simp add: year_string_def read_year_def)
  next
    case 3
    have "nat \<bar>y\<bar> < 10 ^ 6" using assms 3 by simp
    then have "read_number 6 (pad 6 (nat \<bar>y\<bar>) @ r) = Some (nat \<bar>y\<bar>, r)"
      by (rule read_number_pad)
    then show ?thesis
      using 3 by (simp add: year_string_def read_year_def)
  qed
qed

lemma parse_fields:
  assumes "read_year (ys @ CHR ''-'' # pad 2 mo @ CHR ''-'' # pad 2 d @ CHR ''T'' #
             pad 2 h @ CHR '':'' # pad 2 mi @ CHR '':'' # pad 2 se @ CHR ''.'' #
             pad 3 ms @ ''Z'') =
           Some (y, CHR ''-'' # pad 2 mo @ CHR ''-'' # pad 2 d @ CHR ''T'' #
             pad 2 h @ CHR '':'' # pad 2 mi @ CHR '':'' # pad 2 se @ CHR ''.'' #
             pad 3 ms @ ''Z'')"
    and "mo < 100" "d < 100" "h < 100" "mi < 100" "se < 100" "ms < 1000"
  shows "parse_iso8601 (ys @ ''-'' @ pad 2 mo @ ''-'' @ pad 2 d @ ''T'' @ pad 2 h @ '':'' @
           pad 2 mi @ '':'' @ pad 2 se @ ''.'' @ pad 3 ms @ ''Z'') =
         Some \<lparr>dt_year = y, dt_month = mo, dt_day = d, dt_hour = h, dt_minute = mi,
               dt_second = se, dt_millis = ms\<rparr>"
proof -
  have n2: "read_number 2 (pad 2 k @ r) = Some (k, r)" if "k < 100" for k r
    using that by (intro read_number_pad) simp
  have n3: "read_number 3 (pad 3 k @ r) = Some (k, r)" if "k < 1000" for k r
    using that by (intro read_number_pad) simp
  show ?thesis
    unfolding parse_iso8601_def
    using assms by (simp add: n2 n3 read_char_Cons del: pad.simps)
qed

lemma parse_toISOString:
  assumes "time_value t"
  shows "parse_iso8601 (toISOString t) = Some (date_time_of t)"
proof -
  have y: "- 999999 \<le> YearFromTime t" "YearFromTime t \<le> 999999"
    using YearFromTime_range [OF assms] by simp_all
  have mo: "nat (MonthFromTime t + 1) < 100"
    using MonthFromTime_range [of t] by linarith
  have "nat (DateFromTime t) \<le> 31"
    using DateFromTime_range [of t] days_in_month_le by (blast intro: order_trans)
  then have d: "nat (DateFromTime t) < 100" by simp
  have h: "nat (HourFromTime t) < 100" and mi: "nat (MinFromTime t) < 100"
    and se: "nat (SecFromTime t) < 100" and ms: "nat (msFromTime t) < 1000"
    using time_of_day_ranges [of t] by linarith+
  show ?thesis
    unfolding toISOString_def date_time_of_def
    by (rule parse_fields [OF read_year_year_string [OF y] mo d h mi se ms])
qed

lemma toISOString_valid:
  assumes "time_value t"
  shows "valid_iso8601 (toISOString t)"
proof -
  have "1 \<le> nat (MonthFromTime t + 1)" "nat (MonthFromTime t + 1) \<le> 12"
    using MonthFromTime_range [of t] by linarith+
  moreover have "1 \<le> nat (DateFromTime t)"
    using DateFromTime_range [of t] by linarith
  moreover have "nat (DateFromTime t) \<le>
      days_in_month (YearFromTime t) (nat (MonthFromTime t + 1))"
    using DateFromTime_range [of t] by simp
  moreover have "nat (HourFromTime t) \<le> 23" "nat (MinFromTime t) \<le> 59"
      "nat (SecFromTime t) \<le> 59"
    using time_of_day_ranges [of t] by linarith+
  ultimately have "valid_date_time (date_time_of t)"
    by (simp add: valid_date_time_def date_time_of_def)
  then show ?thesis
    by (simp add: valid_iso8601_def parse_toISOString [OF assms])
qed

text \<open>Read back, a printed time value names the instant it was printed from.\<close>

lemma days_before_month_table:
  "days_before_month y 1 = 0"
  "days_before_month y 2 = 31"
  "days_before_month y 3 = 31 + days_in_month y 2"
  "days_before_month y 4 = 62 + days_in_month y 2"
  "days_before_month y 5 = 92 + days_in_month y 2"
  "days_before_month y 6 = 123 + days_in_month y 2"
  "days_before_month y 7 = 153 + days_in_month y 2"
  "days_before_month y 8 = 184 + days_in_month y 2"
  "days_before_month y 9 = 215 + days_in_month y 2"
  "days_before_month y 10 = 245 + days_in_month y 2"
  "days_before_month y 11 = 276 + days_in_month y 2"
  "days_before_month y 12 = 306 + days_in_month y 2"
proof -
  have f: "days_in_month y 1 = 31" "days_in_month y 3 = 31" "days_in_month y 4 = 30"
    "days_in_month y 5 = 31" "days_in_month y 6 = 30" "days_in_month y 7 = 31"
    "days_in_month y 8 = 31" "days_in_month y 9 = 30" "days_in_month y 10 = 31"
    "days_in_month y 11 = 30"
    by (simp_all add: days_in_month_def)
  have l2: "[1..<2] = [1 :: nat]" by code_simp
  have l3: "[1..<3] = [1, 2 :: nat]" by code_simp
  have l4: "[1..<4] = [1, 2, 3 :: nat]" by code_simp
  have l5: "[1..<5] = [1, 2, 3, 4 :: nat]" by code_simp
  have l6: "[1..<6] = [1, 2, 3, 4, 5 :: nat]" by code_simp
  have l7: "[1..<7] = [1, 2, 3, 4, 5, 6 :: nat]" by code_simp
  have l8: "[1..<8] = [1, 2, 3, 4, 5, 6, 7 :: nat]" by code_simp
  have l9: "[1..<9] = [1, 2, 3, 4, 5, 6, 7, 8 :: nat]" by code_simp
  have l10: "[1..<10] = [1, 2, 3, 4, 5, 6, 7, 8, 9 :: nat]" by code_simp
  have l11: "[1..<11] = [1, 2, 3, 4, 5, 6, 7, 8, 9, 10 :: nat]" by code_simp
  have l12: "[1..<12] = [1, 2, 3, 4, 5, 6, 7, 8, 9, 10, 11 :: nat]" by code_simp
  show "days_before_month y 1 = 0"
    "days_before_month y 2 = 31"
    "days_before_month y 3 = 31 + days_in_month y 2"
    "days_before_month y 4 = 62 + days_in_month y 2"
    "days_before_month y 5 = 92 + days_in_month y 2"
    "days_before_month y 6 = 123 + days_in_month y 2"
    "days_before_month y 7 = 153 + days_in_month y 2"
    "days_before_month y 8 = 184 + days_in_month y 2"
    "days_before_month y 9 = 215 + days_in_month y 2"
    "days_before_month y 10 = 245 + days_in_month y 2"
    "days_before_month y 11 = 276 + days_in_month y 2"
    "days_before_month y 12 = 306 + days_in_month y 2"
    unfolding days_before_month_def l2 l3 l4 l5 l6 l7 l8 l9 l10 l11 l12 list.map f by simp_all
qed


lemma day_of_year:
  "int (days_before_month (YearFromTime t) (nat (MonthFromTime t + 1))) + DateFromTime t - 1 =
     DayWithinYear t"
proof -
  define m where "m = MonthFromTime t"
  have l: "InLeapYear t = 0 \<or> InLeapYear t = 1" by (rule InLeapYear_cases)
  have feb: "days_in_month (YearFromTime t) 2 = nat (28 + InLeapYear t)"
    by (rule leap_days_in_month)
  have "m = 0 \<or> m = 1 \<or> m = 2 \<or> m = 3 \<or> m = 4 \<or> m = 5 \<or> m = 6 \<or>
      m = 7 \<or> m = 8 \<or> m = 9 \<or> m = 10 \<or> m = 11"
    unfolding m_def MonthFromTime_def Let_def by simp
  then consider "m = 0" | "m = 1" | "m = 2" | "m = 3" | "m = 4" | "m = 5" | "m = 6"
    | "m = 7" | "m = 8" | "m = 9" | "m = 10" | "m = 11"
    by blast
  then show ?thesis
  proof cases
    case 1
    then have M: "MonthFromTime t = 0" by (simp add: m_def)
    have D: "DateFromTime t = DayWithinYear t + 1"
      by (simp add: DateFromTime_def Let_def M)
    have N: "nat (MonthFromTime t + 1) = 1" by (simp add: M)
    show ?thesis
      unfolding N D days_before_month_table feb using l by auto
  next
    case 2
    then have M: "MonthFromTime t = 1" by (simp add: m_def)
    have D: "DateFromTime t = DayWithinYear t - 30"
      by (simp add: DateFromTime_def Let_def M)
    have N: "nat (MonthFromTime t + 1) = 2" by (simp add: M)
    show ?thesis
      unfolding N D days_before_month_table feb using l by auto
  next
    case 3
    then have M: "MonthFromTime t = 2" by (simp add: m_def)
    have D: "DateFromTime t = DayWithinYear t - 58 - InLeapYear t"
      by (simp add: DateFromTime_def Let_def M)
    have N: "nat (MonthFromTime t + 1) = 3" by (simp add: M)
    show ?thesis
      unfolding N D days_before_month_table feb using l by auto
  next
    case 4
    then have M: "MonthFromTime t = 3" by (simp add: m_def)
    have D: "DateFromTime t = DayWithinYear t - 89 - InLeapYear t"
      by (simp add: DateFromTime_def Let_def M)
    have N: "nat (MonthFromTime t + 1) = 4" by (simp add: M)
    show ?thesis
      unfolding N D days_before_month_table feb using l by auto
  next
    case 5
    then have M: "MonthFromTime t = 4" by (simp add: m_def)
    have D: "DateFromTime t = DayWithinYear t - 119 - InLeapYear t"
      by (simp add: DateFromTime_def Let_def M)
    have N: "nat (MonthFromTime t + 1) = 5" by (simp add: M)
    show ?thesis
      unfolding N D days_before_month_table feb using l by auto
  next
    case 6
    then have M: "MonthFromTime t = 5" by (simp add: m_def)
    have D: "DateFromTime t = DayWithinYear t - 150 - InLeapYear t"
      by (simp add: DateFromTime_def Let_def M)
    have N: "nat (MonthFromTime t + 1) = 6" by (simp add: M)
    show ?thesis
      unfolding N D days_before_month_table feb using l by auto
  next
    case 7
    then have M: "MonthFromTime t = 6" by (simp add: m_def)
    have D: "DateFromTime t = DayWithinYear t - 180 - InLeapYear t"
      by (simp add: DateFromTime_def Let_def M)
    have N: "nat (MonthFromTime t + 1) = 7" by (simp add: M)
    show ?thesis
      unfolding N D days_before_month_table feb using l by auto
  next
    case 8
    then have M: "MonthFromTime t = 7" by (simp add: m_def)
    have D: "DateFromTime t = DayWithinYear t - 211 - InLeapYear t"
      by (simp add: DateFromTime_def Let_def M)
    have N: "nat (MonthFromTime t + 1) = 8" by (simp add: M)
    show ?thesis
      unfolding N D days_before_month_table feb using l by auto
  next
    case 9
    then have M: "MonthFromTime t = 8" by (simp add: m_def)
    have D: "DateFromTime t = DayWithinYear t - 242 - InLeapYear t"
      by (simp add: DateFromTime_def Let_def M)
    have N: "nat (MonthFromTime t + 1) = 9" by (simp add: M)
    show ?thesis
      unfolding N D days_before_month_table feb using l by auto
  next
    case 10
    then have M: "MonthFromTime t = 9" by (simp add: m_def)
    have D: "DateFromTime t = DayWithinYear t - 272 - InLeapYear t"
      by (simp add: DateFromTime_def Let_def M)
    have N: "nat (MonthFromTime t + 1) = 10" by (simp add: M)
    show ?thesis
      unfolding N D days_before_month_table feb using l by auto
  next
    case 11
    then have M: "MonthFromTime t = 10" by (simp add: m_def)
    have D: "DateFromTime t = DayWithinYear t - 303 - InLeapYear t"
      by (simp add: DateFromTime_def Let_def M)
    have N: "nat (MonthFromTime t + 1) = 11" by (simp add: M)
    show ?thesis
      unfolding N D days_before_month_table feb using l by auto
  next
    case 12
    then have M: "MonthFromTime t = 11" by (simp add: m_def)
    have D: "DateFromTime t = DayWithinYear t - 333 - InLeapYear t"
      by (simp add: DateFromTime_def Let_def M)
    have N: "nat (MonthFromTime t + 1) = 12" by (simp add: M)
    show ?thesis
      unfolding N D days_before_month_table feb using l by auto
  qed
qed

lemma time_within_day:
  "HourFromTime t * msPerHour + MinFromTime t * msPerMinute + SecFromTime t * msPerSecond +
     msFromTime t = t mod msPerDay"
proof -
  define H where "H = t div 3600000 mod 24"
  define M where "M = t div 60000 mod 60"
  define S where "S = t div 1000 mod 60"
  define r0 where "r0 = t mod 1000"
  define r1 where "r1 = t mod 60000"
  define r2 where "r2 = t mod 3600000"
  define r3 where "r3 = t mod 86400000"
  have "t mod (1000 * 60) = 1000 * (t div 1000 mod 60) + t mod 1000"
    by (rule zmod_zmult2_eq) simp
  then have s: "r1 = 1000 * S + r0"
    by (simp only: r1_def S_def r0_def) simp
  have "t mod (60000 * 60) = 60000 * (t div 60000 mod 60) + t mod 60000"
    by (rule zmod_zmult2_eq) simp
  then have m: "r2 = 60000 * M + r1"
    by (simp only: r2_def M_def r1_def) simp
  have "t mod (3600000 * 24) = 3600000 * (t div 3600000 mod 24) + t mod 3600000"
    by (rule zmod_zmult2_eq) simp
  then have h: "r3 = 3600000 * H + r2"
    by (simp only: r3_def H_def r2_def) simp
  have "H * 3600000 + M * 60000 + S * 1000 + r0 = r3"
    using s m h by linarith
  then show ?thesis
    unfolding HourFromTime_def MinFromTime_def SecFromTime_def msFromTime_def
      msPerHour_def msPerMinute_def msPerSecond_def msPerDay_def
      H_def M_def S_def r0_def r3_def .
qed

lemma instant_of_date_time_of: "instant_of (date_time_of t) = t"
proof -
  have nn: "0 \<le> DateFromTime t" "0 \<le> HourFromTime t" "0 \<le> MinFromTime t"
    "0 \<le> SecFromTime t" "0 \<le> msFromTime t"
    using DateFromTime_range [of t] time_of_day_ranges [of t] by simp_all
  have "DayFromYear (YearFromTime t) +
      int (days_before_month (YearFromTime t) (nat (MonthFromTime t + 1))) +
      DateFromTime t - 1 = Day t"
    using day_of_year [of t] by (simp add: DayWithinYear_def)
  then have "instant_of (date_time_of t) =
      Day t * msPerDay + (HourFromTime t * msPerHour + MinFromTime t * msPerMinute +
        SecFromTime t * msPerSecond + msFromTime t)"
    using nn by (simp add: instant_of_def date_time_of_def)
  also have "\<dots> = Day t * msPerDay + t mod msPerDay"
    by (simp only: time_within_day)
  also have "\<dots> = t"
    by (simp add: Day_def)
  finally show ?thesis .
qed

lemma toISOString_denotes:
  assumes "time_value t"
  shows "map_option instant_of (parse_iso8601 (toISOString t)) = Some t"
  by (simp add: parse_toISOString [OF assms] instant_of_date_time_of)

lemma length_toISOString:
  "length (toISOString t) = (if 0 \<le> YearFromTime t \<and> YearFromTime t \<le> 9999 then 24 else 27)"
  by (simp add: toISOString_def year_string_def length_pad del: pad.simps)

section \<open>What one call does\<close>

lemma stringify_strings:
  "stringify (JArr (map JStr xs)) = JArr (map JStr xs)"
  by (simp add: comp_def)

lemma getDivinationInterpretation_outbox:
  "outbox (snd (getDivinationInterpretation e matter hexagram lines w)) =
     outbox w @
       [\<lparr>req_method = POST, req_baseURL = baseURL (api w),
         req_url = ''/divination/interpret'', req_headers = headers (api w),
         req_data = JObj [(''matter'', JStr matter), (''hexagram'', JStr hexagram),
                          (''lines'', JArr (map JStr lines))]\<rparr>]"
  by (simp add: getDivinationInterpretation_def post_def Let_def console_error_def
        split: sum.split)

lemma addTodoItem_outbox:
  "outbox (snd (addTodoItem e title description hexagram w)) =
     outbox w @
       [\<lparr>req_method = POST, req_baseURL = baseURL (api w),
         req_url = ''/todos'', req_headers = headers (api w),
         req_data = JObj [(''title'', JStr title), (''description'', JStr description),
                          (''hexagram'', param_value hexagram),
                          (''completed'', JBool False),
                          (''createdAt'', JStr (toISOString (now e)))]\<rparr>]"
  by (simp add: addTodoItem_def post_def Let_def console_error_def split: sum.split)

lemma issued_append: "outbox w' = outbox w @ rs \<Longrightarrow> issued w w' = rs"
  by (simp add: issued_def)

lemma invoke_api: "api (snd (invoke e c w)) = api w"
  by (cases c)
     (simp_all add: getDivinationInterpretation_def addTodoItem_def post_def Let_def
        console_error_def split: sum.split)

lemma invoke_outcome:
  assumes "issued w (snd (invoke e c w)) = [r]"
  shows "invoke e c w =
     (case settle (backend e r) of
        Inr response \<Rightarrow> (Inr (data response), w\<lparr>outbox := outbox w @ [r]\<rparr>)
      | Inl error \<Rightarrow>
          (Inl error,
           w\<lparr>outbox := outbox w @ [r], console := console w @ [(diagnostic c, error)]\<rparr>))"
proof (cases c)
  case (GetDivinationInterpretation matter hexagram lines)
  have "issued w (snd (invoke e c w)) =
      [\<lparr>req_method = POST, req_baseURL = baseURL (api w),
        req_url = ''/divination/interpret'', req_headers = headers (api w),
        req_data = JObj [(''matter'', JStr matter), (''hexagram'', JStr hexagram),
                         (''lines'', JArr (map JStr lines))]\<rparr>]"
    unfolding GetDivinationInterpretation invoke.simps
    by (rule issued_append) (rule getDivinationInterpretation_outbox)
  with assms have "r = \<lparr>req_method = POST, req_baseURL = baseURL (api w),
        req_url = ''/divination/interpret'', req_headers = headers (api w),
        req_data = JObj [(''matter'', JStr matter), (''hexagram'', JStr hexagram),
                         (''lines'', JArr (map JStr lines))]\<rparr>"
    by simp
  then show ?thesis
    unfolding GetDivinationInterpretation
    by (simp add: getDivinationInterpretation_def post_def Let_def console_error_def
          split: sum.split)
next
  case (AddTodoItem title description hexagram)
  have "issued w (snd (invoke e c w)) =
      [\<lparr>req_method = POST, req_baseURL = baseURL (api w),
        req_url = ''/todos'', req_headers = headers (api w),
        req_data = JObj [(''title'', JStr title), (''description'', JStr description),
                         (''hexagram'', param_value hexagram),
                         (''completed'', JBool False),
                         (''createdAt'', JStr (toISOString (now e)))]\<rparr>]"
    unfolding AddTodoItem invoke.simps
    by (rule issued_append) (rule addTodoItem_outbox)
  with assms have "r = \<lparr>req_method = POST, req_baseURL = baseURL (api w),
        req_url = ''/todos'', req_headers = headers (api w),
        req_data = JObj [(''title'', JStr title), (''description'', JStr description),
                         (''hexagram'', param_value hexagram),
                         (''completed'', JBool False),
                         (''createdAt'', JStr (toISOString (now e)))]\<rparr>"
    by simp
  then show ?thesis
    unfolding AddTodoItem
    by (simp add: addTodoItem_def post_def Let_def console_error_def split: sum.split)
qed

text \<open>
  What a call returns depends on its arguments, its environment and the client
  instance only: calls that ran earlier leave no trace that a later call could read.
\<close>

lemma run_api: "api (run steps w) = api w"
  by (induction steps arbitrary: w) (simp_all add: invoke_api)

lemma invoke_result_independent:
  assumes "api w1 = api w2"
  shows "fst (invoke e c w1) = fst (invoke e c w2)"
  using assms
  by (cases c)
     (simp_all add: getDivinationInterpretation_def addTodoItem_def post_def Let_def
        split: sum.split)

lemma invoke_after_run: "fst (invoke e c (run steps w)) = fst (invoke e c w)"
  by (rule invoke_result_independent) (rule run_api)

lemma toISOString_example: "toISOString 1700000000000 = ''2023-11-14T22:13:20.000Z''"
  by code_simp

section \<open>Properties\<close>

text \<open>
  C1. For every matter, hexagram and lines (empty ones included: nothing is checked),
  \<^verbatim>\<open>getDivinationInterpretation\<close> issues one request, and its body is the object
  with exactly the three properties matter, hexagram and lines, holding the argument
  values as they were given; serialising the body neither drops nor adds a property.
\<close>

theorem interpretation_body_verbatim:
  "map req_data (issued w (snd (getDivinationInterpretation e matter hexagram lines w))) =
     [JObj [(''matter'', JStr matter), (''hexagram'', JStr hexagram),
            (''lines'', JArr (map JStr lines))]] \<and>
   map wire_body (issued w (snd (getDivinationInterpretation e matter hexagram lines w))) =
     [JObj [(''matter'', JStr matter), (''hexagram'', JStr hexagram),
            (''lines'', JArr (map JStr lines))]]"
  by (simp add: issued_append [OF getDivinationInterpretation_outbox] wire_body_def
        stringify_strings del: stringify.simps(1))

text \<open>
  C2. For every title and description, \<^verbatim>\<open>addTodoItem\<close> called without the
  hexagram argument issues one request whose payload holds \<^verbatim>\<open>undefined\<close> under
  hexagram (so that the serialised body has no hexagram property at all),
  \<^verbatim>\<open>false\<close> under completed, and under createdAt the clock reading of the call
  printed by \<^verbatim>\<open>toISOString\<close>. That string is a valid ISO 8601 timestamp for
  every time value the clock can show, the instant it names is exactly the clock
  reading of the call, to the millisecond, and for a clock reading within the years
  0000 to 9999 it has the 24 characters of \<^verbatim>\<open>YYYY-MM-DDTHH:mm:ss.sssZ\<close>.
\<close>

theorem todo_without_hexagram:
  assumes "time_value (now e)"
  shows
    "map req_data (issued w (snd (addTodoItem e title description Omitted w))) =
       [JObj [(''title'', JStr title), (''description'', JStr description),
              (''hexagram'', JUndefined), (''completed'', JBool False),
              (''createdAt'', JStr (toISOString (now e)))]] \<and>
     map wire_body (issued w (snd (addTodoItem e title description Omitted w))) =
       [JObj [(''title'', JStr title), (''description'', JStr description),
              (''completed'', JBool False),
              (''createdAt'', JStr (toISOString (now e)))]] \<and>
     valid_iso8601 (toISOString (now e)) \<and>
     map_option instant_of (parse_iso8601 (toISOString (now e))) = Some (now e) \<and>
     (- 62167219200000 \<le> now e \<and> now e \<le> 253402300799999 \<longrightarrow>
        length (toISOString (now e)) = 24)"
  using toISOString_valid [OF assms] toISOString_denotes [OF assms]
    four_digit_year [of "now e"]
  by (simp add: issued_append [OF addTodoItem_outbox] wire_body_def length_toISOString)

theorem todo_without_hexagram_witness:
  "time_value 1700000000000 \<and>
   map req_data
     (issued module_init
        (snd (addTodoItem \<lparr>now = 1700000000000, backend = (\<lambda>r. HttpReply 201 JNull)\<rparr>
                ''Rest'' ''Wait for the rain to pass'' Omitted module_init))) =
     [JObj [(''title'', JStr ''Rest''), (''description'', JStr ''Wait for the rain to pass''),
            (''hexagram'', JUndefined), (''completed'', JBool False),
            (''createdAt'', JStr ''2023-11-14T22:13:20.000Z'')]] \<and>
   map wire_body
     (issued module_init
        (snd (addTodoItem \<lparr>now = 1700000000000, backend = (\<lambda>r. HttpReply 201 JNull)\<rparr>
                ''Rest'' ''Wait for the rain to pass'' Omitted module_init))) =
     [JObj [(''title'', JStr ''Rest''), (''description'', JStr ''Wait for the rain to pass''),
            (''completed'', JBool False),
            (''createdAt'', JStr ''2023-11-14T22:13:20.000Z'')]] \<and>
   valid_iso8601 ''2023-11-14T22:13:20.000Z'' \<and>
   map_option instant_of (parse_iso8601 ''2023-11-14T22:13:20.000Z'') = Some 1700000000000 \<and>
   length ''2023-11-14T22:13:20.000Z'' = 24"
  using todo_without_hexagram
    [of "\<lparr>now = 1700000000000, backend = (\<lambda>r. HttpReply 201 JNull)\<rparr>"
        module_init "''Rest''" "''Wait for the rain to pass''"]
  by (simp add: time_value_def toISOString_example)

text \<open>
  C3. For every title, description and hexagram string, the payload that
  \<^verbatim>\<open>addTodoItem\<close> sends holds the given hexagram under hexagram, \<^verbatim>\<open>false\<close>
  under completed, and under createdAt the timestamp printed from the clock reading of
  the call; the serialised body keeps all five properties.
\<close>

theorem todo_with_hexagram:
  "map req_data (issued w (snd (addTodoItem e title description (Passed hexagram) w))) =
     [JObj [(''title'', JStr title), (''description'', JStr description),
            (''hexagram'', JStr hexagram), (''completed'', JBool False),
            (''createdAt'', JStr (toISOString (now e)))]] \<and>
   map wire_body (issued w (snd (addTodoItem e title description (Passed hexagram) w))) =
     [JObj [(''title'', JStr title), (''description'', JStr description),
            (''hexagram'', JStr hexagram), (''completed'', JBool False),
            (''createdAt'', JStr (toISOString (now e)))]]"
  by (simp add: issued_append [OF addTodoItem_outbox] wire_body_def)



text \<open>
  C5. When the request of a call fails, by a transport failure or by an answer whose
  status is outside the 2xx range, the call (either operation) logs its own fixed
  diagnostic string together with the failure, once, and settles with that same failure:
  no value is returned in its place, and no second request is issued.
\<close>

theorem failure_logged_and_rethrown:
  assumes "issued w (snd (invoke e c w)) = [r]"
    and "backend e r = NoReply m \<and> err = NetworkError m \<or>
         backend e r = HttpReply st body \<and> \<not> (200 \<le> st \<and> st < 300) \<and>
           err = BadStatus \<lparr>status = st, data = body\<rparr>"
  shows "fst (invoke e c w) = Inl err \<and>
         console (snd (invoke e c w)) = console w @ [(diagnostic c, err)] \<and>
         outbox (snd (invoke e c w)) = outbox w @ [r]"
  using assms(2) by (auto simp add: invoke_outcome [OF assms(1)] settle_def)

theorem failure_logged_and_rethrown_witness:
  "fst (invoke \<lparr>now = 0, backend = (\<lambda>r. NoReply ''ECONNREFUSED'')\<rparr>
          (GetDivinationInterpretation ''Shall I travel'' ''qian'' []) module_init) =
     Inl (NetworkError ''ECONNREFUSED'') \<and>
   console (snd (invoke \<lparr>now = 0, backend = (\<lambda>r. NoReply ''ECONNREFUSED'')\<rparr>
          (GetDivinationInterpretation ''Shall I travel'' ''qian'' []) module_init)) =
     [(interpret_failed, NetworkError ''ECONNREFUSED'')] \<and>
   fst (invoke \<lparr>now = 0, backend = (\<lambda>r. HttpReply 500 (JStr ''boom''))\<rparr>
          (AddTodoItem ''Rest'' ''Wait'' Omitted) module_init) =
     Inl (BadStatus \<lparr>status = 500, data = JStr ''boom''\<rparr>) \<and>
   console (snd (invoke \<lparr>now = 0, backend = (\<lambda>r. HttpReply 500 (JStr ''boom''))\<rparr>
          (AddTodoItem ''Rest'' ''Wait'' Omitted) module_init)) =
     [(add_todo_failed, BadStatus \<lparr>status = 500, data = JStr ''boom''\<rparr>)]"
proof -
  let ?e1 = "\<lparr>now = 0, backend = (\<lambda>r. NoReply ''ECONNREFUSED'')\<rparr>"
  let ?e2 = "\<lparr>now = 0, backend = (\<lambda>r. HttpReply 500 (JStr ''boom''))\<rparr>"
  let ?c1 = "GetDivinationInterpretation ''Shall I travel'' ''qian'' []"
  let ?c2 = "AddTodoItem ''Rest'' ''Wait'' Omitted"
  obtain r1 where i1: "issued module_init (snd (invoke ?e1 ?c1 module_init)) = [r1]"
    by (simp add: issued_append [OF getDivinationInterpretation_outbox])
  obtain r2 where i2: "issued module_init (snd (invoke ?e2 ?c2 module_init)) = [r2]"
    by (simp add: issued_append [OF addTodoItem_outbox])
  show ?thesis
    using failure_logged_and_rethrown [OF i1, of "''ECONNREFUSED''" "NetworkError ''ECONNREFUSED''"]
      failure_logged_and_rethrown [OF i2, of _ "BadStatus \<lparr>status = 500, data = JStr ''boom''\<rparr>"
        500 "JStr ''boom''"]
    by (simp add: module_init_def)
qed

text \<open>
  C6. In every run that starts from the freshly loaded module, each call issues exactly
  one request, and that request is a POST against the base URL
  \<^verbatim>\<open>http://localhost:3002/api\<close> whose only header is
  \<^verbatim>\<open>Content-Type: application/json\<close> (so it carries no Authorization header); the
  path is \<^verbatim>\<open>/divination/interpret\<close> for the interpretation operation and
  \<^verbatim>\<open>/todos\<close> for the todo operation.
\<close>

theorem requests_are_posts_to_fixed_endpoints:
  "list_all2
     (\<lambda>ec r.
        req_method r = POST \<and>
        req_baseURL r = ''http://localhost:3002/api'' \<and>
        req_headers r = [(''Content-Type'', ''application/json'')] \<and>
        map_of (req_headers r) ''Authorization'' = None \<and>
        req_url r =
          (case snd ec of
             GetDivinationInterpretation matter hexagram lines \<Rightarrow> ''/divination/interpret''
           | AddTodoItem title description hexagram \<Rightarrow> ''/todos''))
     steps (outbox (run steps module_init))"
proof -
  define P where "P = (\<lambda>(ec :: env \<times> call) (r :: request).
        req_method r = POST \<and>
        req_baseURL r = ''http://localhost:3002/api'' \<and>
        req_headers r = [(''Content-Type'', ''application/json'')] \<and>
        map_of (req_headers r) ''Authorization'' = None \<and>
        req_url r =
          (case snd ec of
             GetDivinationInterpretation matter hexagram lines \<Rightarrow> ''/divination/interpret''
           | AddTodoItem title description hexagram \<Rightarrow> ''/todos''))"
  have step: "\<exists>r. outbox (snd (invoke e c w)) = outbox w @ [r] \<and> P (e, c) r"
    if "api w = api module_init" for e c w
    using that
    by (cases c)
       (simp_all add: getDivinationInterpretation_outbox addTodoItem_outbox P_def
          module_init_def axios_create_def API_BASE_URL_def)
  have "\<exists>rs. outbox (run steps w) = outbox w @ rs \<and> list_all2 P steps rs"
    if "api w = api module_init" for w
    using that
  proof (induction steps arbitrary: w)
    case Nil
    show ?case by simp
  next
    case (Cons ec steps)
    obtain r where r: "outbox (snd (invoke (fst ec) (snd ec) w)) = outbox w @ [r]"
        and Pr: "P ec r"
      using step [OF Cons.prems, of "fst ec" "snd ec"] by auto
    have "api (snd (invoke (fst ec) (snd ec) w)) = api module_init"
      using Cons.prems by (simp add: invoke_api)
    then obtain rs where rs: "outbox (run steps (snd (invoke (fst ec) (snd ec) w))) =
        outbox (snd (invoke (fst ec) (snd ec) w)) @ rs" and Prs: "list_all2 P steps rs"
      using Cons.IH by blast
    have "outbox (run (ec # steps) w) = outbox w @ (r # rs)"
      using r rs by simp
    moreover have "list_all2 P (ec # steps) (r # rs)"
      using Pr Prs by simp
    ultimately show ?case by blast
  qed
  from this [of module_init]
  have "list_all2 P steps (outbox (run steps module_init))"
    by (auto simp: module_init_def)
  then show ?thesis unfolding P_def .
qed

text \<open>
  C7. No call, whether it succeeds or fails, changes the client instance that the
  module holds: after one call, and after any run of calls from any state, the instance
  is the one that was there before, so every later call reads the same base URL and
  headers.
\<close>

theorem client_configuration_unchanged:
  "api (snd (invoke e c w)) = api w \<and> api (run steps w) = api w"
proof
  show "api (snd (invoke e c w)) = api w" by (rule invoke_api)
  show "api (run steps w) = api w" by (rule run_api)
qed

text \<open>
  C9. Whatever is passed for the optional hexagram, the payload object that
  \<^verbatim>\<open>addTodoItem\<close> builds has exactly the five keys title, description, hexagram,
  completed and createdAt, in this order; it has no id, user or priority key.
\<close>

theorem todo_payload_keys:
  "map (keys \<circ> req_data) (issued w (snd (addTodoItem e title description hexagram w))) =
     [[''title'', ''description'', ''hexagram'', ''completed'', ''createdAt'']] \<and>
   list_all (\<lambda>p. property p ''id'' = None \<and> property p ''user'' = None \<and>
                 property p ''priority'' = None)
     (map req_data (issued w (snd (addTodoItem e title description hexagram w))))"
  by (simp add: issued_append [OF addTodoItem_outbox] keys_def property_def)

text \<open>
  C10. Passing \<^verbatim>\<open>undefined\<close> for hexagram is the same call as leaving the argument
  out: in the same environment the two calls have the same result and leave the same
  state, and at any two clock readings they issue requests with the same path whose
  serialised bodies differ in createdAt at most.
\<close>

theorem explicit_undefined_is_omitted:
  "addTodoItem e title description PassedUndefined w =
     addTodoItem e title description Omitted w \<and>
   map req_url (issued w (snd (addTodoItem e1 title description PassedUndefined w))) =
     map req_url (issued w (snd (addTodoItem e2 title description Omitted w))) \<and>
   map (\<lambda>r. filter (\<lambda>kv. fst kv \<noteq> ''createdAt'') (entries (wire_body r)))
       (issued w (snd (addTodoItem e1 title description PassedUndefined w))) =
     map (\<lambda>r. filter (\<lambda>kv. fst kv \<noteq> ''createdAt'') (entries (wire_body r)))
       (issued w (snd (addTodoItem e2 title description Omitted w)))"
proof -
  have "addTodoItem e title description PassedUndefined w =
      addTodoItem e title description Omitted w"
    by (simp add: addTodoItem_def)
  then show ?thesis
    by (simp add: issued_append [OF addTodoItem_outbox] wire_body_def)
qed

end
